theory Spec2Isabelle
  imports Main "HOL-Library.Word" "HOL-Library.List_Lexorder" "HOL-Library.AList"
begin

unbundle bit_operations_syntax

section \<open>Bytes, results and Go slices\<close>

type_synonym byte = "8 word"
type_synonym bytes = "byte list"

text \<open>
  A Go function of this package ends in one of three ways: it returns its value, it returns
  an \<^verbatim>\<open>error\<close>, or it panics at run time. The last two are kept apart, because a
  panic is not caught by the \<^verbatim>\<open>if err != nil\<close> of a caller and is never wrapped.
\<close>

datatype panic =
    IndexOutOfRange
  | SliceBoundsOutOfRange
  | MakeSliceLenOutOfRange
  | NegativeShiftAmount
  | IntegerDivideByZero

datatype error =
    DataTooShort
  | BoolLengthMustBe1
  | Int32LengthMustBe4
  | Int64LengthMustBe8
  | StringLengthMismatch
  | BytesLengthMismatch
  | Float32LengthMustBe4
  | Float64LengthMustBe8
  | MapDataTooShort
  | ArrayDataTooShort
  | FailedToDecodeKey error
  | KeyIsNotAString
  | FailedToDecodeValue error
  | FailedToDecodeElement error
  | UnsupportedTag byte
  | UnsupportedType
  | FailedToEncodeElement error
  | FailedToEncodeKey error
  | FailedToEncodeValue error
  | Expected32ByteHash
  | PayloadTooLarge
  | LeavesNotEqualToDepth
  | MerkleProofNotValid
  | LibraryError

datatype fault = Error error | Panic panic

definition andThen :: "fault + 'a \<Rightarrow> ('a \<Rightarrow> fault + 'b) \<Rightarrow> fault + 'b" where
  "andThen m f = (case m of Inl e \<Rightarrow> Inl e | Inr v \<Rightarrow> f v)"

text \<open>\<^verbatim>\<open>fmt.Errorf("...: %w", err)\<close> wraps a returned error; a panic passes unchanged.\<close>

definition wrapError :: "(error \<Rightarrow> error) \<Rightarrow> fault + 'a \<Rightarrow> fault + 'a" where
  "wrapError w m = (case m of Inl (Error e) \<Rightarrow> Inl (Error (w e)) | Inl (Panic p) \<Rightarrow> Inl (Panic p)
                    | Inr v \<Rightarrow> Inr v)"

text \<open>
  A Go slice sees \<open>elems\<close> (its \<^verbatim>\<open>len\<close> bytes) and may be re-sliced into \<open>spare\<close>,
  the bytes of the backing array between its length and its capacity.
\<close>

datatype slice = Slice (elems: bytes) (spare: bytes)

definition len :: "slice \<Rightarrow> nat" where
  "len s = length (elems s)"

definition cap :: "slice \<Rightarrow> nat" where
  "cap s = length (elems s) + length (spare s)"

text \<open>\<^verbatim>\<open>s[i]\<close>: checked against the length.\<close>

definition index :: "slice \<Rightarrow> nat \<Rightarrow> fault + byte" where
  "index s i = (if i < len s then Inr (elems s ! i) else Inl (Panic IndexOutOfRange))"

text \<open>\<^verbatim>\<open>s[lo:hi]\<close>: checked against the capacity.\<close>

definition reslice :: "slice \<Rightarrow> nat \<Rightarrow> nat \<Rightarrow> fault + slice" where
  "reslice s lo hi =
     (if lo \<le> hi \<and> hi \<le> cap s
      then Inr (Slice (take (hi - lo) (drop lo (elems s @ spare s))) (drop hi (elems s @ spare s)))
      else Inl (Panic SliceBoundsOutOfRange))"

text \<open>\<^verbatim>\<open>s[lo:]\<close>: the upper bound is the length.\<close>

definition resliceFrom :: "slice \<Rightarrow> nat \<Rightarrow> fault + slice" where
  "resliceFrom s lo =
     (if lo \<le> len s then Inr (Slice (drop lo (elems s)) (spare s))
      else Inl (Panic SliceBoundsOutOfRange))"

section \<open>encoding/binary, big endian\<close>

definition PutUint32 :: "32 word \<Rightarrow> bytes" where
  "PutUint32 v = [ucast (drop_bit 24 v), ucast (drop_bit 16 v), ucast (drop_bit 8 v), ucast v]"

definition PutUint64 :: "64 word \<Rightarrow> bytes" where
  "PutUint64 v = [ucast (drop_bit 56 v), ucast (drop_bit 48 v), ucast (drop_bit 40 v),
                  ucast (drop_bit 32 v), ucast (drop_bit 24 v), ucast (drop_bit 16 v),
                  ucast (drop_bit 8 v), ucast v]"

text \<open>\<^verbatim>\<open>Uint32(b)\<close> starts with the bounds check \<^verbatim>\<open>_ = b[3]\<close>.\<close>

definition Uint32 :: "slice \<Rightarrow> fault + 32 word" where
  "Uint32 b =
     (if len b < 4 then Inl (Panic IndexOutOfRange)
      else Inr (ucast (elems b ! 3) OR push_bit 8 (ucast (elems b ! 2))
                OR push_bit 16 (ucast (elems b ! 1)) OR push_bit 24 (ucast (elems b ! 0))))"

definition Uint64 :: "slice \<Rightarrow> fault + 64 word" where
  "Uint64 b =
     (if len b < 8 then Inl (Panic IndexOutOfRange)
      else Inr (ucast (elems b ! 7) OR push_bit 8 (ucast (elems b ! 6))
                OR push_bit 16 (ucast (elems b ! 5)) OR push_bit 24 (ucast (elems b ! 4))
                OR push_bit 32 (ucast (elems b ! 3)) OR push_bit 40 (ucast (elems b ! 2))
                OR push_bit 48 (ucast (elems b ! 1)) OR push_bit 56 (ucast (elems b ! 0))))"

section \<open>The typed binary codec (serializer.go)\<close>

text \<open>
  The dynamic values \<^verbatim>\<open>Encode\<close> receives as \<^verbatim>\<open>interface{}\<close>. A Go string is its
  bytes; a float is its IEEE-754 bit pattern (\<^verbatim>\<open>math.Float32bits\<close> and
  \<^verbatim>\<open>math.Float32frombits\<close> reinterpret the bits); a \<^verbatim>\<open>map[string]interface{}\<close>
  is the list of its entries in the order \<^verbatim>\<open>range\<close> visits them, with pairwise distinct
  keys; \<open>VOther\<close> stands for a value of any other dynamic type (\<^verbatim>\<open>int\<close>, a struct,
  a map of another type).
\<close>

datatype val =
    VNull
  | VBool bool
  | VInt32 "32 word"
  | VInt64 "64 word"
  | VString bytes
  | VBytes bytes
  | VArray "val list"
  | VMap "(bytes \<times> val) list"
  | VFloat32 "32 word"
  | VFloat64 "64 word"
  | VOther

definition TypeNull :: byte where "TypeNull = 0"
definition TypeBool :: byte where "TypeBool = 1"
definition TypeInt32 :: byte where "TypeInt32 = 2"
definition TypeInt64 :: byte where "TypeInt64 = 3"
definition TypeString :: byte where "TypeString = 4"
definition TypeBytes :: byte where "TypeBytes = 5"
definition TypeArray :: byte where "TypeArray = 6"
definition TypeMap :: byte where "TypeMap = 7"
definition TypeFloat32 :: byte where "TypeFloat32 = 8"
definition TypeFloat64 :: byte where "TypeFloat64 = 9"

lemmas Type_defs = TypeNull_def TypeBool_def TypeInt32_def TypeInt64_def TypeString_def
  TypeBytes_def TypeArray_def TypeMap_def TypeFloat32_def TypeFloat64_def

text \<open>\<^verbatim>\<open>binary.BigEndian.PutUint32(result[sizePos:], v)\<close> with \<open>sizePos = 5\<close>.\<close>

definition putSize :: "bytes \<Rightarrow> 32 word \<Rightarrow> bytes" where
  "putSize result v = take 5 result @ PutUint32 v @ drop 9 result"

lemma andThen_cong [fundef_cong]:
  "m = m' \<Longrightarrow> (\<And>v. m' = Inr v \<Longrightarrow> f v = f' v) \<Longrightarrow> andThen m f = andThen m' f'"
  by (auto simp: andThen_def split: sum.splits)

lemma map_of_size_le:
  "map_of m k = Some v \<Longrightarrow> size v < Suc (size_list (size_prod (\<lambda>_. 0) size) m)"
  by (induction m) (auto split: if_splits)

function Encode :: "val \<Rightarrow> fault + bytes"
  and encodeElems :: "val list \<Rightarrow> bytes \<Rightarrow> nat \<Rightarrow> fault + (bytes \<times> nat)"
  and encodeEntries :: "(bytes \<times> val) list \<Rightarrow> bytes list \<Rightarrow> bytes \<Rightarrow> nat \<Rightarrow> fault + (bytes \<times> nat)"
where
  "Encode (VArray xs) =
     andThen (encodeElems xs ([TypeArray] @ PutUint32 (of_nat (length xs)) @ [0, 0, 0, 0]) 0)
       (\<lambda>(result, totalSize). Inr (putSize result (of_nat totalSize)))"
| "Encode VNull = Inr [TypeNull, 0, 0, 0, 0]"
| "Encode (VBool v) = Inr ([TypeBool, 0, 0, 0, 1] @ (if v then [1] else [0]))"
| "Encode (VInt32 v) = Inr ([TypeInt32] @ PutUint32 4 @ PutUint32 v)"
| "Encode (VInt64 v) = Inr ([TypeInt64] @ PutUint32 8 @ PutUint64 v)"
| "Encode (VString v) = Inr ([TypeString] @ PutUint32 (of_nat (length v)) @ v)"
| "Encode (VBytes v) = Inr ([TypeBytes] @ PutUint32 (of_nat (length v)) @ v)"
| "Encode (VFloat32 v) = Inr ([TypeFloat32] @ PutUint32 4 @ PutUint32 v)"
| "Encode (VFloat64 v) = Inr ([TypeFloat64] @ PutUint32 8 @ PutUint64 v)"
| "Encode (VMap v) =
     (let keys = sort (map fst v) in
      andThen (encodeEntries v keys ([TypeMap] @ PutUint32 (of_nat (length keys)) @ [0, 0, 0, 0]) 0)
        (\<lambda>(result, totalSize). Inr (putSize result (of_nat totalSize))))"
| "Encode VOther = Inl (Error UnsupportedType)"
| "encodeElems [] result totalSize = Inr (result, totalSize)"
| "encodeElems (elem # rest) result totalSize =
     andThen (wrapError FailedToEncodeElement (Encode elem))
       (\<lambda>elemEnc. encodeElems rest (result @ elemEnc) (totalSize + length elemEnc))"
| "encodeEntries v [] result totalSize = Inr (result, totalSize)"
| "encodeEntries v (k # rest) result totalSize =
     andThen (wrapError FailedToEncodeKey (Encode (VString k)))
       (\<lambda>keyEnc. andThen (wrapError FailedToEncodeValue
                            (Encode (case map_of v k of Some x \<Rightarrow> x | None \<Rightarrow> VNull)))
          (\<lambda>valEnc. encodeEntries v rest (result @ keyEnc @ valEnc)
                       (totalSize + length keyEnc + length valEnc)))"
  by pat_completeness auto
termination
proof (relation "inv_image (less_than <*lex*> less_than)
    (\<lambda>x. case x of
        Inl v \<Rightarrow> (2 * size v, 0)
      | Inr (Inl (xs, _, _)) \<Rightarrow> (2 * size_list size xs + 1, length xs)
      | Inr (Inr (m, ks, _, _)) \<Rightarrow> (2 * size_list (size_prod (\<lambda>_. 0) size) m + 1, length ks))")
qed (auto split: option.splits dest!: map_of_size_le)

text \<open>
  \<^verbatim>\<open>Decode\<close>, with the two loops over the children of a container as functions of the
  offset, the number of iterations left and the result built so far. The decoded map is the
  list of its entries, \<^verbatim>\<open>result[key] = valueIface\<close> replacing the value of a key
  already there.
\<close>

lemma reslice_cap:
  "reslice s lo hi = Inr c \<Longrightarrow> cap c = cap s - lo \<and> hi \<le> cap s \<and> lo \<le> hi"
  by (auto simp: reslice_def cap_def split: if_splits)

function Decode :: "slice \<Rightarrow> fault + val"
  and decodeMapEntries :: "slice \<Rightarrow> nat \<Rightarrow> nat \<Rightarrow> (bytes \<times> val) list \<Rightarrow> fault + val"
  and decodeArrayElems :: "slice \<Rightarrow> nat \<Rightarrow> nat \<Rightarrow> val list \<Rightarrow> fault + val"
where
  "Decode data =
     (if len data < 5 then Inl (Error DataTooShort)
      else
        andThen (index data 0) (\<lambda>dataType.
        andThen (andThen (reslice data 1 5) Uint32) (\<lambda>length.
          if dataType = TypeNull then Inr VNull
          else if dataType = TypeBool then
            (if length \<noteq> 1 then Inl (Error BoolLengthMustBe1)
             else andThen (index data 5) (\<lambda>b. Inr (VBool (b \<noteq> 0))))
          else if dataType = TypeInt32 then
            (if length \<noteq> 4 then Inl (Error Int32LengthMustBe4)
             else andThen (andThen (resliceFrom data 5) Uint32) (\<lambda>w. Inr (VInt32 w)))
          else if dataType = TypeInt64 then
            (if length \<noteq> 8 then Inl (Error Int64LengthMustBe8)
             else andThen (andThen (resliceFrom data 5) Uint64) (\<lambda>w. Inr (VInt64 w)))
          else if dataType = TypeString then
            andThen (resliceFrom data 5) (\<lambda>body.
              if length \<noteq> of_nat (len body) then Inl (Error StringLengthMismatch)
              else Inr (VString (elems body)))
          else if dataType = TypeBytes then
            andThen (resliceFrom data 5) (\<lambda>body.
              if length \<noteq> of_nat (len body) then Inl (Error BytesLengthMismatch)
              else Inr (VBytes (elems body)))
          else if dataType = TypeFloat32 then
            (if length \<noteq> 4 then Inl (Error Float32LengthMustBe4)
             else andThen (andThen (resliceFrom data 5) Uint32) (\<lambda>w. Inr (VFloat32 w)))
          else if dataType = TypeFloat64 then
            (if length \<noteq> 8 then Inl (Error Float64LengthMustBe8)
             else andThen (andThen (resliceFrom data 5) Uint64) (\<lambda>w. Inr (VFloat64 w)))
          else if dataType = TypeMap then
            andThen (andThen (reslice data 1 5) Uint32) (\<lambda>numEntries.
            andThen (andThen (reslice data 5 9) Uint32) (\<lambda>totalSize.
              if len data < 9 + unat totalSize then Inl (Error MapDataTooShort)
              else decodeMapEntries data 9 (unat numEntries) []))
          else if dataType = TypeArray then
            andThen (andThen (reslice data 1 5) Uint32) (\<lambda>numElements.
            andThen (andThen (reslice data 5 9) Uint32) (\<lambda>totalSize.
              if len data < 9 + unat totalSize then Inl (Error ArrayDataTooShort)
              else decodeArrayElems data 9 (unat numElements) []))
          else Inl (Error (UnsupportedTag dataType)))))"
| "decodeMapEntries data offset n result =
     (if n = 0 then Inr (VMap result)
      else
        andThen (andThen (reslice data (offset + 1) (offset + 5)) Uint32) (\<lambda>keySize.
        andThen (reslice data offset (offset + 5 + unat keySize)) (\<lambda>keyData.
        andThen (wrapError FailedToDecodeKey (Decode keyData)) (\<lambda>keyIface.
          case keyIface of
            VString key \<Rightarrow>
              andThen (andThen (reslice data (offset + 5 + unat keySize + 1)
                                  (offset + 5 + unat keySize + 5)) Uint32) (\<lambda>valueSize.
              andThen (reslice data (offset + 5 + unat keySize)
                         (offset + 5 + unat keySize + 5 + unat valueSize)) (\<lambda>valueData.
              andThen (wrapError FailedToDecodeValue (Decode valueData)) (\<lambda>valueIface.
                decodeMapEntries data (offset + 5 + unat keySize + 5 + unat valueSize) (n - 1)
                  (AList.update key valueIface result))))
          | _ \<Rightarrow> Inl (Error KeyIsNotAString)))))"
| "decodeArrayElems data offset n result =
     (if n = 0 then Inr (VArray result)
      else
        andThen (andThen (reslice data (offset + 1) (offset + 5)) Uint32) (\<lambda>valueSize.
        andThen (reslice data offset (offset + 5 + unat valueSize)) (\<lambda>elemData.
        andThen (wrapError FailedToDecodeElement (Decode elemData)) (\<lambda>elem.
          decodeArrayElems data (offset + 5 + unat valueSize) (n - 1) (result @ [elem])))))"
  by pat_completeness auto
termination
proof (relation "measure (\<lambda>x. case x of
        Inl data \<Rightarrow> 2 * cap data
      | Inr (Inl (data, offset, _, _)) \<Rightarrow> 2 * (cap data - offset) + 1
      | Inr (Inr (data, offset, _, _)) \<Rightarrow> 2 * (cap data - offset) + 1)")
qed (auto simp: len_def cap_def dest!: reslice_cap)

declare Decode.simps [simp del] decodeMapEntries.simps [simp del] decodeArrayElems.simps [simp del]

section \<open>Key types and hashers (pkg/crypto/key.go)\<close>

text \<open>\<^verbatim>\<open>type KeyType int\<close> with its four named constants; any other integer is a key type too.\<close>

type_synonym KeyType = int

definition KeyTypeSecp256k1 :: KeyType where "KeyTypeSecp256k1 = 0"
definition KeyTypeMlDSA87 :: KeyType where "KeyTypeMlDSA87 = 1"
definition KeyTypeED25519 :: KeyType where "KeyTypeED25519 = 2"
definition KeyTypeBLS12377 :: KeyType where "KeyTypeBLS12377 = 3"

lemmas KeyType_defs = KeyTypeSecp256k1_def KeyTypeMlDSA87_def KeyTypeED25519_def KeyTypeBLS12377_def

text \<open>
  The two hashers of gnark-crypto the package constructs:
  \<^verbatim>\<open>mimc_bn254.NewMiMC(WithByteOrder(BigEndian))\<close> and
  \<^verbatim>\<open>mimc_bw6_761.NewMiMC(WithByteOrder(BigEndian))\<close>.
\<close>

datatype hasher = MiMC_BN254 | MiMC_BW6_761

definition GetHasherByType :: "KeyType \<Rightarrow> hasher" where
  "GetHasherByType keyType =
     (if keyType = KeyTypeSecp256k1 then MiMC_BN254
      else if keyType = KeyTypeBLS12377 then MiMC_BW6_761
      else MiMC_BN254)"

section \<open>External collaborators\<close>

text \<open>
  The curves \<^verbatim>\<open>ecc.BN254\<close> and \<^verbatim>\<open>ecc.BW6_761\<close>, whose scalar fields the package
  keeps in \<^verbatim>\<open>ECDSA_CURVE\<close> and \<^verbatim>\<open>BLS_CURVE\<close>.
\<close>

datatype curve = BN254 | BW6_761

text \<open>
  What the package calls and does not define: \<^verbatim>\<open>sha256.Sum256\<close>; the scalar field of
  a curve (\<^verbatim>\<open>ScalarField()\<close>, a \<^verbatim>\<open>*big.Int\<close>); the digest \<^verbatim>\<open>Sum(nil)\<close> of a
  hasher, as a function of the byte slices written to it since its last \<^verbatim>\<open>Reset\<close>; and
  \<^verbatim>\<open>merkletree.BuildReaderProof\<close> and \<^verbatim>\<open>merkletree.VerifyProof\<close> of gnark-crypto,
  the first returning root, proof set and number of leaves, or failing. They are parameters of
  the model.
\<close>

record extern =
  Sum256 :: "bytes \<Rightarrow> bytes"
  ScalarField :: "curve \<Rightarrow> int"
  hashSum :: "hasher \<Rightarrow> bytes list \<Rightarrow> bytes"
  BuildReaderProof :: "hasher \<Rightarrow> bytes \<Rightarrow> nat \<Rightarrow> 64 word \<Rightarrow> fault + (bytes \<times> bytes list \<times> 64 word)"
  VerifyProof :: "hasher \<Rightarrow> bytes \<Rightarrow> bytes list \<Rightarrow> 64 word \<Rightarrow> 64 word \<Rightarrow> bool"

definition ECDSA_CURVE :: "extern \<Rightarrow> int" where
  "ECDSA_CURVE E = ScalarField E BN254"

definition BLS_CURVE :: "extern \<Rightarrow> int" where
  "BLS_CURVE E = ScalarField E BW6_761"

section \<open>Go integers and byte slices\<close>

text \<open>The value of an \<^verbatim>\<open>int\<close> computation: 64 bits, two's complement, wrapping.\<close>

definition int64 :: "int \<Rightarrow> int" where
  "int64 x = (x + 2 ^ 63) mod 2 ^ 64 - 2 ^ 63"

text \<open>\<^verbatim>\<open>1 << depth\<close> at type \<^verbatim>\<open>int\<close>: a negative count panics, a count of 64 or more gives 0.\<close>

definition shiftLeft1 :: "int \<Rightarrow> fault + int" where
  "shiftLeft1 depth =
     (if depth < 0 then Inl (Panic NegativeShiftAmount)
      else if 64 \<le> depth then Inr 0
      else Inr (int64 (2 ^ nat depth)))"

text \<open>\<^verbatim>\<open>a / b\<close> at type \<^verbatim>\<open>int\<close>: truncated towards zero, panics when \<open>b = 0\<close>.\<close>

definition quo :: "int \<Rightarrow> int \<Rightarrow> fault + int" where
  "quo a b =
     (if b = 0 then Inl (Panic IntegerDivideByZero)
      else Inr (int64 (sgn a * sgn b * (\<bar>a\<bar> div \<bar>b\<bar>))))"

text \<open>\<^verbatim>\<open>make([]byte, n)\<close>: \<open>n\<close> zero bytes; a negative length panics.\<close>

definition makeBytes :: "int \<Rightarrow> fault + bytes" where
  "makeBytes n = (if n < 0 then Inl (Panic MakeSliceLenOutOfRange) else Inr (replicate (nat n) 0))"

text \<open>
  \<^verbatim>\<open>payload[start:end]\<close> for bounds that the callers keep within the length of the
  payload; the capacity beyond the length is never reached.
\<close>

definition sliceBytes :: "bytes \<Rightarrow> int \<Rightarrow> int \<Rightarrow> fault + bytes" where
  "sliceBytes b start end =
     (if 0 \<le> start \<and> start \<le> end \<and> end \<le> int (length b)
      then Inr (take (nat (end - start)) (drop (nat start) b))
      else Inl (Panic SliceBoundsOutOfRange))"

text \<open>\<^verbatim>\<open>len(modulus.Bytes())\<close>: the big-endian bytes of the absolute value, none for 0.\<close>

fun byteLen :: "nat \<Rightarrow> nat" where
  "byteLen n = (if n = 0 then 0 else Suc (byteLen (n div 256)))"

declare byteLen.simps [simp del]

definition modulusSizeBytes :: "int \<Rightarrow> nat" where
  "modulusSizeBytes modulus = byteLen (nat \<bar>modulus\<bar>)"

section \<open>The Merkle commitment builders (transaction.go)\<close>

definition CHUNK_SIZE :: int where "CHUNK_SIZE = 16"
definition DEPTH :: int where "DEPTH = 6"

text \<open>
  The body of the loop of \<^verbatim>\<open>GenerateMerkleTreeWithHardBound\<close> up to the end of its first
  \<^verbatim>\<open>if\<close>: \<^verbatim>\<open>chunk := make([]byte, chunkSize)\<close> is \<open>chunkSize\<close> zero bytes, to which
  the piece of the payload and then the padding are appended.
\<close>

definition hardBoundChunk :: "bytes \<Rightarrow> nat \<Rightarrow> int \<Rightarrow> int \<Rightarrow> fault + bytes" where
  "hardBoundChunk payload msb chunkSize i =
     andThen (makeBytes chunkSize) (\<lambda>chunk.
       if int64 (i * chunkSize) < int (length payload) then
         (let start = int64 (i * chunkSize);
              end0 = int64 (start + chunkSize);
              end = (if end0 > int (length payload) then int (length payload) else end0)
          in andThen (sliceBytes payload start end) (\<lambda>piece.
             andThen (makeBytes (int msb - int (length (chunk @ piece)))) (\<lambda>pad.
               Inr ((chunk @ piece) @ pad))))
       else Inr chunk)"

text \<open>
  The loop \<^verbatim>\<open>for i := 0; i < (1 << depth); i++\<close>, with \<open>n\<close> the value of
  \<^verbatim>\<open>1 << depth\<close>; its state is the proof chunk and the contents of \<^verbatim>\<open>buf\<close>.
\<close>

function hardBoundLoop ::
  "bytes \<Rightarrow> nat \<Rightarrow> int \<Rightarrow> int \<Rightarrow> 64 word \<Rightarrow> int \<Rightarrow> bytes \<times> bytes \<Rightarrow> fault + (bytes \<times> bytes)"
where
  "hardBoundLoop payload msb chunkSize n proofIndex i (proofChunk, buf) =
     (if i < n then
        andThen (hardBoundChunk payload msb chunkSize i) (\<lambda>chunk.
          let proofChunk' = (if i = sint proofIndex then chunk else proofChunk);
              chunk' = (if length chunk < msb
                        then chunk @ replicate (msb - length chunk) 0 else chunk)
          in andThen (makeBytes (int msb - int (length chunk'))) (\<lambda>pad.
               hardBoundLoop payload msb chunkSize n proofIndex (i + 1)
                 (proofChunk', (buf @ pad) @ chunk')))
      else Inr (proofChunk, buf))"
  by pat_completeness auto
termination
  by (relation "measure (\<lambda>(payload, msb, chunkSize, n, proofIndex, i, st). nat (n - i))") auto

declare hardBoundLoop.simps [simp del]

definition GenerateMerkleTreeWithHardBound ::
  "extern \<Rightarrow> bytes \<Rightarrow> int \<Rightarrow> int \<Rightarrow> int \<Rightarrow> hasher \<Rightarrow> 64 word
     \<Rightarrow> fault + (bytes \<times> bytes list \<times> bytes \<times> 64 word)" where
  "GenerateMerkleTreeWithHardBound E payload modulus chunkSize depth hasher proofIndex =
     andThen (shiftLeft1 depth) (\<lambda>p.
       let maxSize = int64 (chunkSize * p) in
       if int (length payload) > maxSize then Inl (Error PayloadTooLarge)
       else
         let msb = modulusSizeBytes modulus in
         andThen (shiftLeft1 depth) (\<lambda>n.
         andThen (hardBoundLoop payload msb chunkSize n proofIndex 0 ([], [])) (\<lambda>(proofChunk, buf).
         andThen (BuildReaderProof E hasher buf msb proofIndex) (\<lambda>(merkleRoot, proofElements, numLeaves).
           if numLeaves \<noteq> push_bit (nat depth) 1 then Inl (Error LeavesNotEqualToDepth)
           else if \<not> VerifyProof E hasher merkleRoot proofElements proofIndex numLeaves
             then Inl (Error MerkleProofNotValid)
           else Inr (merkleRoot, proofElements, proofChunk, numLeaves)))))"

text \<open>
  The loop of \<^verbatim>\<open>GenerateMerkleTree\<close>: the chunk is a sub-slice of the payload, and
  \<^verbatim>\<open>paddedChunk\<close> is \<^verbatim>\<open>make([]byte, modulusSizeBytes-len(chunk))\<close> followed by it.
\<close>

definition exactChunk :: "bytes \<Rightarrow> nat \<Rightarrow> int \<Rightarrow> int \<Rightarrow> fault + bytes" where
  "exactChunk payload msb chunkSize i =
     (let start = int64 (i * chunkSize);
          end0 = int64 (start + chunkSize);
          end = (if end0 > int (length payload) then int (length payload) else end0)
      in andThen (sliceBytes payload start end) (\<lambda>chunk.
         andThen (makeBytes (int msb - int (length chunk))) (\<lambda>paddedChunk.
           Inr (paddedChunk @ chunk))))"

function exactLoop ::
  "bytes \<Rightarrow> nat \<Rightarrow> int \<Rightarrow> int \<Rightarrow> 64 word \<Rightarrow> int \<Rightarrow> bytes \<times> bytes \<Rightarrow> fault + (bytes \<times> bytes)"
where
  "exactLoop payload msb chunkSize nrLeaves proofIndex i (proofChunk, buf) =
     (if i < nrLeaves then
        andThen (exactChunk payload msb chunkSize i) (\<lambda>paddedChunk.
          exactLoop payload msb chunkSize nrLeaves proofIndex (i + 1)
            (if i = sint proofIndex then paddedChunk else proofChunk, buf @ paddedChunk))
      else Inr (proofChunk, buf))"
  by pat_completeness auto
termination
  by (relation "measure (\<lambda>(payload, msb, chunkSize, n, proofIndex, i, st). nat (n - i))") auto

declare exactLoop.simps [simp del]

text \<open>
  \<^verbatim>\<open>GenerateMerkleTree\<close> without its last result, the tree depth
  \<^verbatim>\<open>int(math.Log2(float64(numLeaves)))\<close>, which its only caller discards.
\<close>

definition GenerateMerkleTree ::
  "extern \<Rightarrow> bytes \<Rightarrow> int \<Rightarrow> int \<Rightarrow> hasher \<Rightarrow> 64 word
     \<Rightarrow> fault + (bytes \<times> bytes list \<times> bytes \<times> 64 word)" where
  "GenerateMerkleTree E payload modulus chunkSize hasher proofIndex =
     (let msb = modulusSizeBytes modulus in
      andThen (quo (int64 (int64 (int (length payload) + chunkSize) - 1)) chunkSize) (\<lambda>nrLeaves.
      andThen (exactLoop payload msb chunkSize nrLeaves proofIndex 0 ([], [])) (\<lambda>(proofChunk, buf).
      andThen (BuildReaderProof E hasher buf msb proofIndex) (\<lambda>(merkleRoot, proofElements, numLeaves).
        if \<not> VerifyProof E hasher merkleRoot proofElements proofIndex numLeaves
          then Inl (Error MerkleProofNotValid)
        else Inr (merkleRoot, proofElements, proofChunk, numLeaves)))))"

section \<open>The signature commitment (transaction.go)\<close>

record ULTransactionInput =
  BlockchainId :: string
  To :: string
  From :: string
  Payload :: string
  SenderSignature :: string
  PayloadType :: string
  Suggestor :: string
  SenderTimestamp :: int
  PayloadRoot :: string
  KeyType :: KeyType

text \<open>\<open>SenderTimestamp\<close> is the time in Unix seconds, what \<^verbatim>\<open>SenderTimestamp.Unix()\<close> reads.\<close>

record TransactionCommitment =
  BlockchainIdHigh :: bytes
  BlockchainIdLow :: bytes
  FromHigh :: bytes
  FromLow :: bytes
  ToHigh :: bytes
  ToLow :: bytes
  PayloadRoot :: bytes
  Timestamp :: "64 word"
  SuggestorHigh :: bytes
  SuggestorLow :: bytes
  ProofElements :: "bytes list"
  ChunkIndex :: int
  NumLeaves :: "64 word"
  ChunkSize :: int
  ProofChunk :: bytes
  Depth :: int

text \<open>\<^verbatim>\<open>[]byte(s)\<close> of a string.\<close>

definition bytesOf :: "string \<Rightarrow> bytes" where
  "bytesOf s = map of_char s"

definition splitHash32 :: "extern \<Rightarrow> string \<Rightarrow> fault + (bytes \<times> bytes)" where
  "splitHash32 E data =
     (let hash = Sum256 E (bytesOf data) in
      if length hash \<noteq> 32 then Inl (Error Expected32ByteHash)
      else Inr (take 16 hash, drop 16 hash))"

definition GetSignatureCommitment ::
  "extern \<Rightarrow> ULTransactionInput \<Rightarrow> hasher \<Rightarrow> bool \<Rightarrow> fault + TransactionCommitment" where
  "GetSignatureCommitment E t hasher computeRoot =
     andThen (splitHash32 E (BlockchainId t)) (\<lambda>(blockchainIdHigh, blockchainIdLow).
     andThen (splitHash32 E (From t)) (\<lambda>(fromHigh, fromLow).
     andThen (splitHash32 E (To t)) (\<lambda>(toHigh, toLow).
     andThen (splitHash32 E (Suggestor t)) (\<lambda>(suggestorHigh, suggestorLow).
       let field = (if KeyType t = KeyTypeBLS12377 then BLS_CURVE E else ECDSA_CURVE E) in
       andThen (GenerateMerkleTreeWithHardBound E (bytesOf (Payload t)) field CHUNK_SIZE DEPTH hasher 0)
         (\<lambda>(payloadRoot, proofElements, proofChunk, numLeaves).
           Inr \<lparr>BlockchainIdHigh = blockchainIdHigh, BlockchainIdLow = blockchainIdLow,
                FromHigh = fromHigh, FromLow = fromLow, ToHigh = toHigh, ToLow = toLow,
                PayloadRoot = payloadRoot, Timestamp = word_of_int (SenderTimestamp t),
                SuggestorHigh = suggestorHigh, SuggestorLow = suggestorLow,
                ProofElements = proofElements, ChunkIndex = 0, NumLeaves = numLeaves,
                ChunkSize = CHUNK_SIZE, ProofChunk = proofChunk, Depth = DEPTH\<rparr>)))))"

definition GetUnboundCommitment :: "extern \<Rightarrow> ULTransactionInput \<Rightarrow> hasher \<Rightarrow> fault + bytes" where
  "GetUnboundCommitment E t hasher =
     (let field = (if KeyType t = KeyTypeBLS12377 then BLS_CURVE E else ECDSA_CURVE E) in
      andThen (GenerateMerkleTree E (bytesOf (Payload t)) field CHUNK_SIZE hasher 0)
        (\<lambda>(payloadRoot, proofElements, proofChunk, numLeaves). Inr payloadRoot))"

text \<open>
  The state of a \<^verbatim>\<open>hash.Hash\<close>: the byte slices written since the last \<^verbatim>\<open>Reset\<close>.
  \<^verbatim>\<open>Sum(nil)\<close> is the external digest of them.
\<close>

type_synonym hashState = "bytes list"

definition Reset :: "hashState \<Rightarrow> hashState" where
  "Reset s = []"

definition Write :: "bytes \<Rightarrow> hashState \<Rightarrow> hashState" where
  "Write p s = s @ [p]"

text \<open>
  \<^verbatim>\<open>HashSignatureCommitment\<close> on a hasher in state \<open>s\<close>: the digest and the state it
  leaves. \<^verbatim>\<open>binary.Write(hasher, binary.BigEndian, commitment.Timestamp)\<close> is one
  \<^verbatim>\<open>Write\<close> of the eight bytes of the timestamp. The error result is always nil.
\<close>

definition HashSignatureCommitment ::
  "extern \<Rightarrow> hasher \<Rightarrow> hashState \<Rightarrow> TransactionCommitment \<Rightarrow> bytes \<times> hashState" where
  "HashSignatureCommitment E hasher s commitment =
     (let s0 = Reset s;
          s1 = Write (BlockchainIdHigh commitment) s0;
          s2 = Write (BlockchainIdLow commitment) s1;
          s3 = Write (FromHigh commitment) s2;
          s4 = Write (FromLow commitment) s3;
          s5 = Write (ToHigh commitment) s4;
          s6 = Write (ToLow commitment) s5;
          s7 = Write (PayloadRoot commitment) s6;
          s8 = Write (PutUint64 (Timestamp commitment)) s7;
          s9 = Write (SuggestorHigh commitment) s8;
          s10 = Write (SuggestorLow commitment) s9
      in (hashSum E hasher s10, s10))"

section \<open>Transaction kinds and the signing session (transaction.go, transaction_session.go)\<close>

datatype ULTransactionType =
    INVALID_TX_TYPE
  | TX_DATA
  | TX_CREATE_WALLET
  | TX_ALTER_WALLET
  | DEPLOY_SMART_CONTRACT
  | INVOKE_SMART_CONTRACT
  | UPGRADE_SMART_CONTRACT
  | ROLLBACK_SMART_CONTRACT
  | CREATE_TOKEN
  | TRANSFER_TOKEN
  | APPROVE_TOKEN
  | MINT_TOKEN
  | BURN_TOKEN
  | MINT_NFT
  | TRANSFER_NFT
  | APPROVE_NFT
  | SET_APPROVAL_FOR_ALL
  | TRANSFER_MULTI_TOKEN
  | MINT_MULTI_TOKEN
  | CONVERT_TOKEN

text \<open>The method \<^verbatim>\<open>String()\<close> of a transaction type.\<close>

fun typeString :: "ULTransactionType \<Rightarrow> string" where
  "typeString TX_DATA = ''DATA''"
| "typeString TX_CREATE_WALLET = ''CREATE_WALLET''"
| "typeString TX_ALTER_WALLET = ''ALTER_WALLET''"
| "typeString DEPLOY_SMART_CONTRACT = ''DEPLOY_SMART_CONTRACT''"
| "typeString INVOKE_SMART_CONTRACT = ''INVOKE_SMART_CONTRACT''"
| "typeString UPGRADE_SMART_CONTRACT = ''UPGRADE_SMART_CONTRACT''"
| "typeString ROLLBACK_SMART_CONTRACT = ''ROLLBACK_SMART_CONTRACT''"
| "typeString CREATE_TOKEN = ''CREATE_TOKEN''"
| "typeString TRANSFER_TOKEN = ''TRANSFER_TOKEN''"
| "typeString APPROVE_TOKEN = ''APPROVE_TOKEN''"
| "typeString MINT_TOKEN = ''MINT_TOKEN''"
| "typeString BURN_TOKEN = ''BURN_TOKEN''"
| "typeString MINT_NFT = ''MINT_NFT''"
| "typeString TRANSFER_NFT = ''TRANSFER_NFT''"
| "typeString APPROVE_NFT = ''APPROVE_NFT''"
| "typeString SET_APPROVAL_FOR_ALL = ''SET_APPROVAL_FOR_ALL''"
| "typeString TRANSFER_MULTI_TOKEN = ''TRANSFER_MULTI_TOKEN''"
| "typeString MINT_MULTI_TOKEN = ''MINT_MULTI_TOKEN''"
| "typeString CONVERT_TOKEN = ''CONVERT_TOKEN''"
| "typeString INVALID_TX_TYPE = []"

text \<open>
  Of a wallet the session reads \<^verbatim>\<open>wallet.Address\<close> and
  \<^verbatim>\<open>wallet.GetKey().GetType()\<close>.
\<close>

record UL_Wallet =
  Address :: string
  keyType :: KeyType

record UL_TransactionSession =
  nodeEndpoint :: string
  suggestor :: string
  wallet :: UL_Wallet

text \<open>
  \<^verbatim>\<open>GenerateTransaction\<close> up to its call \<^verbatim>\<open>SignData(commitment)\<close>: the result is the
  \<^verbatim>\<open>commitment\<close> handed to the signing key. \<open>now\<close> is the current time in Unix seconds
  (the time is formatted and parsed back as RFC 3339, which keeps the seconds), and \<open>s\<close>
  the state in which the Merkle library leaves the hasher.
\<close>

definition GenerateTransaction_commitment ::
  "extern \<Rightarrow> UL_TransactionSession \<Rightarrow> int \<Rightarrow> hashState \<Rightarrow> ULTransactionInput \<Rightarrow> fault + bytes" where
  "GenerateTransaction_commitment E session now s input =
     (let input1 = input\<lparr>Suggestor := suggestor session, SenderTimestamp := now\<rparr>;
          input2 = (if PayloadType input1 \<noteq> typeString TX_CREATE_WALLET
                    then input1\<lparr>From := Address (wallet session)\<rparr> else input1);
          input3 = input2\<lparr>KeyType := keyType (wallet session)\<rparr>;
          hasher = GetHasherByType (KeyType input3)
      in if PayloadType input3 = typeString DEPLOY_SMART_CONTRACT
            \<or> PayloadType input3 = typeString UPGRADE_SMART_CONTRACT
            \<or> PayloadType input3 = typeString TX_CREATE_WALLET
            \<or> PayloadType input3 = typeString TX_ALTER_WALLET
         then andThen (GetUnboundCommitment E input3 hasher) (\<lambda>commitment. Inr commitment)
         else andThen (GetSignatureCommitment E input3 hasher True) (\<lambda>signatureCommitment.
                Inr (fst (HashSignatureCommitment E hasher s signatureCommitment))))"

section \<open>Notions of the specification\<close>

text \<open>
  Logical equality of two values, whatever the order in which their maps are iterated: equal
  values; arrays of logically equal elements in the same order; maps (with pairwise distinct
  keys) that have the same keys and logically equal values under each key.
\<close>

inductive sameValue :: "val \<Rightarrow> val \<Rightarrow> bool" where
  same: "sameValue v v"
| sameArray: "list_all2 sameValue xs ys \<Longrightarrow> sameValue (VArray xs) (VArray ys)"
| sameMap: "distinct (map fst m1) \<Longrightarrow> distinct (map fst m2)
     \<Longrightarrow> set (map fst m1) = set (map fst m2)
     \<Longrightarrow> (\<forall>k \<in> set (map fst m1).
           \<exists>x y. map_of m1 k = Some x \<and> map_of m2 k = Some y \<and> sameValue x y)
     \<Longrightarrow> sameValue (VMap m1) (VMap m2)"

text \<open>
  The body of a map in the wire format: the concatenation of (encoded key, encoded value)
  pairs, here for the keys \<open>ks\<close> in the order of the list.
\<close>

fun entriesInOrder :: "(bytes \<times> val) list \<Rightarrow> bytes list \<Rightarrow> fault + bytes" where
  "entriesInOrder m [] = Inr []"
| "entriesInOrder m (k # ks) =
     andThen (wrapError FailedToEncodeKey (Encode (VString k))) (\<lambda>keyEnc.
     andThen (wrapError FailedToEncodeValue
                (Encode (case map_of m k of Some x \<Rightarrow> x | None \<Rightarrow> VNull))) (\<lambda>valEnc.
     andThen (entriesInOrder m ks) (\<lambda>rest. Inr (keyEnc @ valEnc @ rest))))"

text \<open>
  Leaf \<open>i\<close> of a buffer of leaves of \<open>msb\<close> bytes each, and a chunk padded with leading
  zero bytes to \<open>msb\<close> bytes.
\<close>

definition leaf :: "nat \<Rightarrow> bytes \<Rightarrow> nat \<Rightarrow> bytes" where
  "leaf msb buf i = take msb (drop (i * msb) buf)"

definition leftPad :: "nat \<Rightarrow> bytes \<Rightarrow> bytes" where
  "leftPad msb chunk = replicate (msb - length chunk) 0 @ chunk"

text \<open>
  The leaf that the loop of \<^verbatim>\<open>GenerateMerkleTreeWithHardBound\<close> writes for index \<open>i\<close>, in
  closed form (lemma \<open>hardBoundLoop_all\<close> below): \<open>c\<close> zero bytes, the piece of the payload,
  zero bytes up to \<open>msb\<close>; all zero beyond the payload.
\<close>

definition hardBoundLeaf :: "bytes \<Rightarrow> nat \<Rightarrow> nat \<Rightarrow> nat \<Rightarrow> bytes" where
  "hardBoundLeaf payload msb c i =
     (if i * c < length payload
      then replicate c 0 @ take c (drop (i * c) payload)
           @ replicate (msb - c - length (take c (drop (i * c) payload))) 0
      else replicate msb 0)"

section \<open>An instance of the external collaborators\<close>

text \<open>
  For closed instances of the theorems: the scalar fields are those of BN254 and BW6-761;
  the digest pads or cuts its input to 32 bytes; the hasher returns what was written; the
  Merkle library fails on an empty segment size or an index beyond the leaves, and otherwise
  returns the leaf at the index as root, an empty proof set and the number of segments.
  Nothing is claimed of the real libraries through it.
\<close>

definition refExtern :: extern where
  "refExtern =
     \<lparr>Sum256 = (\<lambda>b. take 32 (b @ replicate 32 0)),
      ScalarField = (\<lambda>c. case c of
          BN254 \<Rightarrow> 21888242871839275222246405745257275088548364400416034343698204186575808495617
        | BW6_761 \<Rightarrow> 258664426012969094010652733694893533536393512754914660539884262666720468348340822774968888139573360124440321458177),
      hashSum = (\<lambda>h ws. concat ws),
      BuildReaderProof = (\<lambda>h buf seg idx.
          if seg = 0 \<or> length buf div seg \<le> unat idx then Inl (Error LibraryError)
          else Inr (take seg (drop (unat idx * seg) buf), [], of_nat (length buf div seg))),
      VerifyProof = (\<lambda>h root proof idx n. proof = [] \<and> idx < n)\<rparr>"

definition refInput :: "string \<Rightarrow> ULTransactionInput" where
  "refInput payloadType =
     \<lparr>BlockchainId = ''MyBlockchain1'', To = ''bob'', From = ''alice'', Payload = ''test'',
      SenderSignature = [], PayloadType = payloadType, Suggestor = [], SenderTimestamp = 0,
      PayloadRoot = [], KeyType = KeyTypeSecp256k1\<rparr>"

definition refSession :: "KeyType \<Rightarrow> UL_TransactionSession" where
  "refSession k =
     \<lparr>nodeEndpoint = ''http://localhost:8080'', suggestor = ''node1'',
      wallet = \<lparr>Address = ''alice'', keyType = k\<rparr>\<rparr>"

section \<open>Properties of the codec\<close>

lemmas decode_defs = andThen_def wrapError_def index_def len_def cap_def reslice_def
  resliceFrom_def Uint32_def Uint64_def Type_defs

text \<open>
  C9. Decoding a Bool accepts any nonzero body byte as true: for every byte \<open>b\<close> (and whatever
  lies in the capacity of the slice behind it), decoding the six bytes
  \<open>01 00 00 00 01 b\<close> succeeds and gives true exactly when \<open>b\<close> is not zero, although
  \<^verbatim>\<open>Encode\<close> writes only the body bytes 0 and 1.
\<close>

theorem Decode_Bool_any_nonzero:
  "Decode (Slice [0x01, 0x00, 0x00, 0x00, 0x01, b] sp) = Inr (VBool (b \<noteq> 0))
   \<and> Encode (VBool v) = Inr [0x01, 0x00, 0x00, 0x00, 0x01, if v then 1 else 0]"
  by (simp add: Decode.simps decode_defs)

text \<open>
  C8 says that \<^verbatim>\<open>Decode\<close> rejects every malformed buffer with an error and never panics.
  The code does not: a Bool header with declared length 1 and no body byte reads
  \<^verbatim>\<open>data[5]\<close> of a slice of length 5, an Int32 header with no body reaches the bounds check
  of \<^verbatim>\<open>Uint32\<close>, and an Array header of five bytes at the end of its backing array is
  re-sliced to \<^verbatim>\<open>data[5:9]\<close>; each is a run-time panic. A scalar followed by further bytes
  is accepted, not rejected, since only the declared length is compared with the constant.
\<close>

theorem Decode_truncated_panics:
  "Decode (Slice [0x01, 0x00, 0x00, 0x00, 0x01] sp) = Inl (Panic IndexOutOfRange)
   \<and> Decode (Slice [0x02, 0x00, 0x00, 0x00, 0x04] sp) = Inl (Panic IndexOutOfRange)
   \<and> Decode (Slice [0x06, 0x00, 0x00, 0x00, 0x00] []) = Inl (Panic SliceBoundsOutOfRange)
   \<and> Decode (Slice [0x02, 0x00, 0x00, 0x00, 0x04, 0x00, 0x00, 0x00, 0x05, 0xFF] sp)
       = Inr (VInt32 5)"
  by (simp add: Decode.simps decode_defs)

text \<open>
  C1 says that decoding the encoding of a value gives the value back, also for arrays and maps
  nested in arrays and maps. The loops of \<^verbatim>\<open>Decode\<close> take the four bytes after the tag of a
  child for its byte length; for a child that is an array or a map they hold its number of
  elements, so the child is cut short and its decoding fails. Here: the array holding the
  array of the Int32 1; the array holding an empty array; the map whose key \<open>k\<close> holds an
  empty map; the array holding the map of \<open>a\<close> to the Int32 1.
\<close>

theorem Decode_Encode_nested_fails:
  "Encode (VArray [VArray [VInt32 1]])
     = Inr [6, 0, 0, 0, 1, 0, 0, 0, 18, 6, 0, 0, 0, 1, 0, 0, 0, 9, 2, 0, 0, 0, 4, 0, 0, 0, 1]
   \<and> Decode (Slice [6, 0, 0, 0, 1, 0, 0, 0, 18, 6, 0, 0, 0, 1, 0, 0, 0, 9, 2, 0, 0, 0, 4, 0, 0, 0, 1] [])
     = Inl (Error (FailedToDecodeElement ArrayDataTooShort))
   \<and> andThen (Encode (VArray [VArray []])) (\<lambda>b. Decode (Slice b []))
     = Inl (Error (FailedToDecodeElement ArrayDataTooShort))
   \<and> andThen (Encode (VMap [([0x6B], VMap [])])) (\<lambda>b. Decode (Slice b []))
     = Inl (Error (FailedToDecodeValue MapDataTooShort))
   \<and> andThen (Encode (VArray [VMap [([0x61], VInt32 1)]])) (\<lambda>b. Decode (Slice b []))
     = Inl (Error (FailedToDecodeElement MapDataTooShort))"
  by code_simp

subsection \<open>Canonical encoding of maps\<close>

lemma encodeElems_cong:
  "list_all2 (\<lambda>x y. Encode x = Encode y) xs ys
   \<Longrightarrow> encodeElems xs result totalSize = encodeElems ys result totalSize"
proof (induction xs ys arbitrary: result totalSize rule: list_all2_induct)
  case Nil
  show ?case by simp
next
  case (Cons x xs y ys)
  show ?case
    by (simp add: Cons.hyps(1)) (rule andThen_cong, simp, rule Cons.IH)
qed

lemma encodeEntries_cong:
  "(\<forall>k \<in> set ks. Encode (case map_of m1 k of Some x \<Rightarrow> x | None \<Rightarrow> VNull)
                   = Encode (case map_of m2 k of Some x \<Rightarrow> x | None \<Rightarrow> VNull))
   \<Longrightarrow> encodeEntries m1 ks result totalSize = encodeEntries m2 ks result totalSize"
proof (induction ks arbitrary: result totalSize)
  case Nil
  show ?case by simp
next
  case (Cons k ks)
  then show ?case by simp
qed

lemma Encode_sameValue: "sameValue v1 v2 \<Longrightarrow> Encode v1 = Encode v2"
proof (induction rule: sameValue.induct)
  case (same v)
  show ?case by simp
next
  case (sameArray xs ys)
  then have l: "length xs = length ys" by (simp add: list_all2_lengthD)
  have "list_all2 (\<lambda>x y. Encode x = Encode y) xs ys"
    using sameArray by (rule list_all2_mono) simp
  then show ?case by (simp add: l encodeElems_cong)
next
  case (sameMap m1 m2)
  have keys: "sort (map fst m1) = sort (map fst m2)"
    by (rule sorted_distinct_set_unique) (use sameMap(1-3) in simp_all)
  have "\<forall>k \<in> set (sort (map fst m1)).
          Encode (case map_of m1 k of Some x \<Rightarrow> x | None \<Rightarrow> VNull)
            = Encode (case map_of m2 k of Some x \<Rightarrow> x | None \<Rightarrow> VNull)"
    using sameMap(4) by fastforce
  then have "encodeEntries m1 (sort (map fst m1)) r t = encodeEntries m2 (sort (map fst m1)) r t"
    for r t by (rule encodeEntries_cong)
  then show ?case by (simp add: keys [symmetric] Let_def)
qed

lemma encodeEntries_entriesInOrder:
  "encodeEntries m ks result totalSize
     = andThen (entriesInOrder m ks) (\<lambda>body. Inr (result @ body, totalSize + length body))"
proof (induction ks arbitrary: result totalSize)
  case Nil
  show ?case by (simp add: andThen_def)
next
  case (Cons k ks)
  show ?case
    by (simp add: Cons.IH) (simp add: andThen_def wrapError_def split: sum.splits fault.splits)
qed

lemma length_PutUint32: "length (PutUint32 w) = 4"
  by (simp add: PutUint32_def)

lemma Encode_VMap_sorted:
  "Encode (VMap m)
     = andThen (entriesInOrder m (sort (map fst m)))
         (\<lambda>body. Inr ([TypeMap] @ PutUint32 (of_nat (length m))
                        @ PutUint32 (of_nat (length body)) @ body))"
  by (simp add: Let_def encodeEntries_entriesInOrder putSize_def length_PutUint32 andThen_def
      split: sum.splits)

text \<open>
  C7. \<^verbatim>\<open>Encode\<close> writes the entries of a map in ascending byte-wise order of their keys,
  whatever the order in which the map is iterated: logically equal values have the same
  encoding, and the encoding of a map is its header followed by the (encoded key, encoded
  value) pairs in the order of the sorted keys. For the map of \<open>b\<close> to 1 and \<open>a\<close> to 2 (as
  Int32) the bytes of key \<open>a\<close> (61) come before those of key \<open>b\<close> (62), in both orders of
  iteration.
\<close>

theorem Encode_map_canonical:
  "(sameValue v1 v2 \<longrightarrow> Encode v1 = Encode v2)
   \<and> Encode (VMap m)
       = andThen (entriesInOrder m (sort (map fst m)))
           (\<lambda>body. Inr ([TypeMap] @ PutUint32 (of_nat (length m))
                          @ PutUint32 (of_nat (length body)) @ body))
   \<and> sorted (sort (map fst m))"
  using Encode_sameValue [of v1 v2] Encode_VMap_sorted [of m] by simp

theorem Encode_map_canonical_witness:
  "sameValue (VMap [([0x62], VInt32 1), ([0x61], VInt32 2)])
             (VMap [([0x61], VInt32 2), ([0x62], VInt32 1)])
   \<and> Encode (VMap [([0x62], VInt32 1), ([0x61], VInt32 2)])
       = Inr [7, 0, 0, 0, 2, 0, 0, 0, 30,
              4, 0, 0, 0, 1, 0x61, 2, 0, 0, 0, 4, 0, 0, 0, 2,
              4, 0, 0, 0, 1, 0x62, 2, 0, 0, 0, 4, 0, 0, 0, 1]
   \<and> Encode (VMap [([0x61], VInt32 2), ([0x62], VInt32 1)])
       = Inr [7, 0, 0, 0, 2, 0, 0, 0, 30,
              4, 0, 0, 0, 1, 0x61, 2, 0, 0, 0, 4, 0, 0, 0, 2,
              4, 0, 0, 0, 1, 0x62, 2, 0, 0, 0, 4, 0, 0, 0, 1]"
proof -
  have s: "sameValue (VMap [([0x62], VInt32 1), ([0x61], VInt32 2)])
                     (VMap [([0x61], VInt32 2), ([0x62], VInt32 1)])"
    by (rule sameMap) (auto intro: same)
  have e: "Encode (VMap [([0x61], VInt32 2), ([0x62], VInt32 1)])
       = Inr [7, 0, 0, 0, 2, 0, 0, 0, 30,
              4, 0, 0, 0, 1, 0x61, 2, 0, 0, 0, 4, 0, 0, 0, 2,
              4, 0, 0, 0, 1, 0x62, 2, 0, 0, 0, 4, 0, 0, 0, 1]"
    by code_simp
  show ?thesis
    using Encode_map_canonical [of "VMap [([0x62], VInt32 1), ([0x61], VInt32 2)]"
        "VMap [([0x61], VInt32 2), ([0x62], VInt32 1)]" "[]"] s e
    by simp
qed

section \<open>Properties of the commitment builders\<close>

lemma int64_id:
  assumes "- (2 ^ 63) \<le> x" "x < 2 ^ 63" shows "int64 x = x"
proof -
  have "(x + 2 ^ 63) mod 2 ^ 64 = x + 2 ^ 63"
    by (rule mod_pos_pos_trivial) (use assms in auto)
  then show ?thesis by (simp add: int64_def)
qed

lemma int64_less: "int64 x < 2 ^ 63"
proof -
  have "(x + 2 ^ 63) mod 2 ^ 64 < (2 ^ 64 :: int)" by (rule pos_mod_bound) simp
  then show ?thesis by (simp add: int64_def)
qed

lemma modulusSizeBytes_BN254: "modulusSizeBytes (ScalarField refExtern BN254) = 32"
  by (simp add: refExtern_def modulusSizeBytes_def byteLen.simps)

lemma modulusSizeBytes_BW6_761: "modulusSizeBytes (ScalarField refExtern BW6_761) = 48"
  by (simp add: refExtern_def modulusSizeBytes_def byteLen.simps)

text \<open>
  C4. A payload longer than \<open>chunkSize * 2 ^ depth\<close> (for a chunk size and a depth that
  are not negative) is rejected with the size error, whatever the Merkle library is: no
  commitment is returned and the library is not reached.
\<close>

theorem hard_bound_rejects_oversized:
  assumes "0 \<le> chunkSize" and "0 \<le> depth"
    and "chunkSize * 2 ^ nat depth < int (length payload)"
  shows "GenerateMerkleTreeWithHardBound E payload modulus chunkSize depth hasher proofIndex
           = Inl (Error PayloadTooLarge)"
proof -
  obtain p where p: "shiftLeft1 depth = Inr p"
    and pdef: "p = (if 64 \<le> depth then 0 else int64 (2 ^ nat depth))"
    using assms(2) by (simp add: shiftLeft1_def)
  have "int64 (chunkSize * p) < int (length payload)"
  proof (cases "int (length payload) < 2 ^ 63")
    case False
    then show ?thesis using int64_less [of "chunkSize * p"] by linarith
  next
    case small: True
    show ?thesis
    proof (cases "chunkSize = 0")
      case True
      then show ?thesis using assms(3) by (simp add: int64_def)
    next
      case False
      then have c1: "1 \<le> chunkSize" using assms(1) by linarith
      have "(2::int) ^ nat depth \<le> chunkSize * 2 ^ nat depth"
        using c1 by (simp add: mult_le_cancel_right1)
      then have lt: "(2::int) ^ nat depth < 2 ^ 63" using assms(3) small by linarith
      have "nat depth < 63"
        by (rule power_less_imp_less_exp [of "2::int"]) (use lt in auto)
      then have "depth < 64" by linarith
      moreover have "(0::int) \<le> 2 ^ nat depth" by simp
      then have "int64 (2 ^ nat depth) = 2 ^ nat depth"
        by (intro int64_id) (use lt in linarith)+
      ultimately have "p = 2 ^ nat depth" using pdef by simp
      moreover have "0 \<le> chunkSize * 2 ^ nat depth"
        using assms(1) by simp
      then have "int64 (chunkSize * 2 ^ nat depth) = chunkSize * 2 ^ nat depth"
        by (intro int64_id) (use assms(3) small in linarith)+
      ultimately show ?thesis using assms(3) by simp
    qed
  qed
  then show ?thesis
    using p by (simp add: GenerateMerkleTreeWithHardBound_def andThen_def Let_def)
qed

theorem hard_bound_rejects_oversized_witness:
  "(0::int) \<le> CHUNK_SIZE \<and> 0 \<le> DEPTH
   \<and> CHUNK_SIZE * 2 ^ nat DEPTH < int (length (replicate 1025 (0::byte)))
   \<and> GenerateMerkleTreeWithHardBound refExtern (replicate 1025 0) (ScalarField refExtern BN254)
         CHUNK_SIZE DEPTH MiMC_BN254 0 = Inl (Error PayloadTooLarge)"
  using hard_bound_rejects_oversized [of CHUNK_SIZE DEPTH "replicate 1025 (0::byte)" refExtern
      "ScalarField refExtern BN254" MiMC_BN254 0]
  by (simp add: CHUNK_SIZE_def DEPTH_def)

subsection \<open>The leaves of the hard-bound builder\<close>

lemma sliceBytes_chunk:
  assumes "0 \<le> start" "start < int (length payload)" "0 \<le> chunkSize"
  shows "sliceBytes payload start
           (if start + chunkSize > int (length payload) then int (length payload)
            else start + chunkSize)
         = Inr (take (nat chunkSize) (drop (nat start) payload))"
  using assms by (auto simp: sliceBytes_def min_def intro!: arg_cong2 [where f = take])

lemma hardBoundChunk_covered:
  assumes c0: "0 \<le> chunkSize" and w: "2 * chunkSize \<le> int msb"
    and i0: "0 \<le> i" and bound: "(i + 1) * chunkSize < 2 ^ 63"
    and cov: "i * chunkSize < int (length payload)"
  shows "hardBoundChunk payload msb chunkSize i
           = Inr (replicate (nat chunkSize) 0
                  @ take (nat chunkSize) (drop (nat (i * chunkSize)) payload)
                  @ replicate (msb - nat chunkSize
                       - length (take (nat chunkSize) (drop (nat (i * chunkSize)) payload))) 0)"
proof -
  have ic: "0 \<le> i * chunkSize" using c0 i0 by simp
  have le: "i * chunkSize \<le> (i + 1) * chunkSize" using c0 by (simp add: distrib_right)
  have s: "int64 (i * chunkSize) = i * chunkSize"
    by (intro int64_id) (use ic le bound in linarith)+
  have e: "int64 (i * chunkSize + chunkSize) = i * chunkSize + chunkSize"
    by (intro int64_id) (use ic c0 bound in \<open>simp_all add: distrib_right\<close>)
  let ?piece = "take (nat chunkSize) (drop (nat (i * chunkSize)) payload)"
  have len: "int (length ?piece) \<le> chunkSize" using c0 by simp
  have fits: "nat chunkSize + length ?piece \<le> msb" using c0 w len by linarith
  have "int msb - int (length (replicate (nat chunkSize) (0::byte) @ ?piece))
          = int (msb - nat chunkSize - length ?piece)"
    using fits by simp
  then have mk: "makeBytes (int msb - int (length (replicate (nat chunkSize) (0::byte) @ ?piece)))
              = Inr (replicate (msb - nat chunkSize - length ?piece) 0)"
    unfolding makeBytes_def by (simp del: length_append length_replicate length_take)
  have mk0: "makeBytes chunkSize = Inr (replicate (nat chunkSize) 0)"
    using c0 by (simp add: makeBytes_def)
  note sl = sliceBytes_chunk [OF ic cov c0]
  show ?thesis
    unfolding hardBoundChunk_def Let_def s e mk0
    by (simp only: andThen_def sum.case cov if_True sl mk append_assoc)
qed

lemma hardBoundChunk_beyond:
  assumes c0: "0 \<le> chunkSize"
    and i0: "0 \<le> i" and bound: "(i + 1) * chunkSize < 2 ^ 63"
    and cov: "\<not> i * chunkSize < int (length payload)"
  shows "hardBoundChunk payload msb chunkSize i = Inr (replicate (nat chunkSize) 0)"
proof -
  have ic: "0 \<le> i * chunkSize" using c0 i0 by simp
  have le: "i * chunkSize \<le> (i + 1) * chunkSize" using c0 by (simp add: distrib_right)
  have s: "int64 (i * chunkSize) = i * chunkSize"
    by (intro int64_id) (use ic le bound in linarith)+
  show ?thesis
    unfolding hardBoundChunk_def s using cov c0 by (simp add: makeBytes_def andThen_def)
qed

lemma length_hardBoundLeaf: "2 * c \<le> msb \<Longrightarrow> length (hardBoundLeaf payload msb c i) = msb"
  by (auto simp: hardBoundLeaf_def)

lemma hardBoundLoop_unfold:
  assumes "hardBoundChunk payload msb chunkSize i = Inr chunk" and "i < n"
    and "length chunk \<le> msb"
  shows "hardBoundLoop payload msb chunkSize n idx i (pc, buf)
           = hardBoundLoop payload msb chunkSize n idx (i + 1)
               (if i = sint idx then chunk else pc,
                buf @ chunk @ replicate (msb - length chunk) 0)"
proof (cases "length chunk < msb")
  case True
  then show ?thesis
    by (subst hardBoundLoop.simps [of payload msb chunkSize n idx i])
       (simp add: assms(1,2) andThen_def Let_def makeBytes_def)
next
  case False
  then have "length chunk = msb" using assms(3) by simp
  then show ?thesis
    by (subst hardBoundLoop.simps [of payload msb chunkSize n idx i])
       (simp add: assms(1,2) andThen_def Let_def makeBytes_def)
qed

lemma hardBoundLoop_step:
  assumes c0: "0 \<le> chunkSize" and w: "2 * chunkSize \<le> int msb"
    and bound: "(int j + 1) * chunkSize < 2 ^ 63" and jm: "j < m"
  shows "\<exists>pc'. hardBoundLoop payload msb chunkSize (int m) idx (int j) (pc, buf)
           = hardBoundLoop payload msb chunkSize (int m) idx (int (Suc j))
               (pc', buf @ hardBoundLeaf payload msb (nat chunkSize) j)"
proof -
  have w': "2 * nat chunkSize \<le> msb" using c0 w by linarith
  have nj: "nat (int j * chunkSize) = j * nat chunkSize"
    using c0 by (simp add: nat_mult_distrib)
  have jc: "int j * chunkSize = int (j * nat chunkSize)" using c0 by simp
  have cov: "int j * chunkSize < int (length payload) \<longleftrightarrow> j * nat chunkSize < length payload"
    unfolding jc by (rule of_nat_less_iff)
  have jm': "int j < int m" using jm by simp
  have suc: "int j + 1 = int (Suc j)" by simp
  show ?thesis
  proof (cases "int j * chunkSize < int (length payload)")
    case True
    let ?piece = "take (nat chunkSize) (drop (nat (int j * chunkSize)) payload)"
    let ?chunk = "replicate (nat chunkSize) (0::byte) @ ?piece
                    @ replicate (msb - nat chunkSize - length ?piece) 0"
    have ch: "hardBoundChunk payload msb chunkSize (int j) = Inr ?chunk"
      using hardBoundChunk_covered [OF c0 w _ bound True] by simp
    have l: "length ?chunk = msb" using w' by auto
    have leaf: "hardBoundLeaf payload msb (nat chunkSize) j = ?chunk"
      using True cov by (simp add: hardBoundLeaf_def nj)
    have "?chunk @ replicate (msb - length ?chunk) 0 = hardBoundLeaf payload msb (nat chunkSize) j"
      unfolding leaf l by simp
    then show ?thesis
      using hardBoundLoop_unfold [OF ch jm', of idx pc buf] l unfolding suc by auto
  next
    case False
    let ?chunk = "replicate (nat chunkSize) (0::byte)"
    have ch: "hardBoundChunk payload msb chunkSize (int j) = Inr ?chunk"
      using hardBoundChunk_beyond [OF c0 _ bound False] by simp
    have l: "length ?chunk \<le> msb" using w' by simp
    have leaf: "hardBoundLeaf payload msb (nat chunkSize) j = replicate msb 0"
      using False cov by (simp add: hardBoundLeaf_def)
    have "?chunk @ replicate (msb - length ?chunk) 0 = hardBoundLeaf payload msb (nat chunkSize) j"
      unfolding leaf using w' by (simp add: replicate_add [symmetric] del: replicate_add)
    then show ?thesis
      using hardBoundLoop_unfold [OF ch jm' l, of idx pc buf] unfolding suc by auto
  qed
qed

lemma hardBoundLoop_all:
  assumes c0: "0 \<le> chunkSize" and w: "2 * chunkSize \<le> int msb"
    and bound: "int m * chunkSize < 2 ^ 63" and jm: "j \<le> m"
  shows "\<exists>pc'. hardBoundLoop payload msb chunkSize (int m) idx (int j) (pc, buf)
           = Inr (pc', buf @ concat (map (hardBoundLeaf payload msb (nat chunkSize)) [j..<m]))"
  using jm
proof (induction "m - j" arbitrary: j pc buf)
  case 0
  then have "j = m" by simp
  then show ?case by (subst hardBoundLoop.simps) simp
next
  case (Suc k)
  then have jm: "j < m" and k: "k = m - Suc j" and le: "Suc j \<le> m" by auto
  have "(int j + 1) * chunkSize \<le> int m * chunkSize"
    using jm c0 by (intro mult_right_mono) auto
  then have b: "(int j + 1) * chunkSize < 2 ^ 63" using bound by linarith
  obtain pc1 where step: "hardBoundLoop payload msb chunkSize (int m) idx (int j) (pc, buf)
           = hardBoundLoop payload msb chunkSize (int m) idx (int (Suc j))
               (pc1, buf @ hardBoundLeaf payload msb (nat chunkSize) j)"
    using hardBoundLoop_step [OF c0 w b jm] by blast
  obtain pc' where rest: "hardBoundLoop payload msb chunkSize (int m) idx (int (Suc j))
               (pc1, buf @ hardBoundLeaf payload msb (nat chunkSize) j)
        = Inr (pc', (buf @ hardBoundLeaf payload msb (nat chunkSize) j)
                 @ concat (map (hardBoundLeaf payload msb (nat chunkSize)) [Suc j..<m]))"
    using Suc.hyps(1) [OF k le] by blast
  show ?case
    unfolding step rest using jm by (simp add: upt_conv_Cons)
qed

lemma shiftLeft1_small:
  assumes "0 \<le> depth" "depth < 63" shows "shiftLeft1 depth = Inr (2 ^ nat depth)"
proof -
  have "nat depth < 63" using assms by linarith
  then have "(2::int) ^ nat depth < 2 ^ 63" by (intro power_strict_increasing) auto
  moreover have "(0::int) \<le> 2 ^ nat depth" by simp
  ultimately have "int64 (2 ^ nat depth) = 2 ^ nat depth"
    by (intro int64_id) linarith+
  then show ?thesis using assms by (simp add: shiftLeft1_def)
qed

lemma hard_bound_calls_library:
  assumes c0: "0 \<le> chunkSize" and d0: "0 \<le> depth" and d63: "depth < 63"
    and bound: "chunkSize * 2 ^ nat depth < 2 ^ 63"
    and fits: "int (length payload) \<le> chunkSize * 2 ^ nat depth"
    and w: "2 * chunkSize \<le> int (modulusSizeBytes modulus)"
  shows "\<exists>proofChunk.
     GenerateMerkleTreeWithHardBound E payload modulus chunkSize depth hasher proofIndex
       = andThen (BuildReaderProof E hasher
                    (concat (map (hardBoundLeaf payload (modulusSizeBytes modulus) (nat chunkSize))
                       [0..<2 ^ nat depth]))
                    (modulusSizeBytes modulus) proofIndex)
           (\<lambda>(merkleRoot, proofElements, numLeaves).
              if numLeaves \<noteq> push_bit (nat depth) 1 then Inl (Error LeavesNotEqualToDepth)
              else if \<not> VerifyProof E hasher merkleRoot proofElements proofIndex numLeaves
                then Inl (Error MerkleProofNotValid)
              else Inr (merkleRoot, proofElements, proofChunk, numLeaves))"
proof -
  let ?msb = "modulusSizeBytes modulus"
  have sh: "shiftLeft1 depth = Inr (2 ^ nat depth)" using shiftLeft1_small [OF d0 d63] .
  have "0 \<le> chunkSize * 2 ^ nat depth" using c0 by simp
  then have mx: "int64 (chunkSize * 2 ^ nat depth) = chunkSize * 2 ^ nat depth"
    by (intro int64_id) (use bound in linarith)+
  have b': "int (2 ^ nat depth) * chunkSize < 2 ^ 63" using bound by (simp add: mult.commute)
  obtain pc where loop:
    "hardBoundLoop payload ?msb chunkSize (int (2 ^ nat depth)) proofIndex (int 0) ([], [])
      = Inr (pc, [] @ concat (map (hardBoundLeaf payload ?msb (nat chunkSize)) [0..<2 ^ nat depth]))"
    using hardBoundLoop_all [OF c0 w b', of 0 payload proofIndex "[]" "[]"] by auto
  show ?thesis
    apply (rule exI [of _ pc])
    unfolding GenerateMerkleTreeWithHardBound_def sh
    using fits loop by (simp add: andThen_def Let_def mx)
qed


lemma hard_bound_succeeds:
  assumes c0: "0 \<le> chunkSize" and d0: "0 \<le> depth" and d63: "depth < 63"
    and bound: "chunkSize * 2 ^ nat depth < 2 ^ 63"
    and fits: "int (length payload) \<le> chunkSize * 2 ^ nat depth"
    and w: "2 * chunkSize \<le> int (modulusSizeBytes modulus)"
    and lib: "\<And>buf. length buf = 2 ^ nat depth * modulusSizeBytes modulus \<Longrightarrow>
             \<exists>rt pf. BuildReaderProof E hasher buf (modulusSizeBytes modulus) proofIndex
                               = Inr (rt, pf, 2 ^ nat depth)
                            \<and> VerifyProof E hasher rt pf proofIndex (2 ^ nat depth)"
  shows "\<exists>rt pf chunk.
            GenerateMerkleTreeWithHardBound E payload modulus chunkSize depth hasher proofIndex
              = Inr (rt, pf, chunk, 2 ^ nat depth)
            \<and> VerifyProof E hasher rt pf proofIndex (2 ^ nat depth)"
proof -
  let ?msb = "modulusSizeBytes modulus"
  let ?buf = "concat (map (hardBoundLeaf payload ?msb (nat chunkSize)) [0..<2 ^ nat depth])"
  from c0 w have w': "2 * nat chunkSize \<le> ?msb" by linarith
  have "length ?buf = 2 ^ nat depth * ?msb"
    using w' by (simp add: length_concat comp_def length_hardBoundLeaf sum_list_triv)
  then obtain rt pf where
    b: "BuildReaderProof E hasher ?buf ?msb proofIndex = Inr (rt, pf, 2 ^ nat depth)"
    and ver: "VerifyProof E hasher rt pf proofIndex (2 ^ nat depth)"
    using lib by blast
  obtain pc where
    "GenerateMerkleTreeWithHardBound E payload modulus chunkSize depth hasher proofIndex
       = andThen (BuildReaderProof E hasher ?buf ?msb proofIndex)
           (\<lambda>(merkleRoot, proofElements, numLeaves).
              if numLeaves \<noteq> push_bit (nat depth) 1 then Inl (Error LeavesNotEqualToDepth)
              else if \<not> VerifyProof E hasher merkleRoot proofElements proofIndex numLeaves
                then Inl (Error MerkleProofNotValid)
              else Inr (merkleRoot, proofElements, pc, numLeaves))"
    using hard_bound_calls_library [OF c0 d0 d63 bound fits w] by blast
  then have "GenerateMerkleTreeWithHardBound E payload modulus chunkSize depth hasher proofIndex
       = Inr (rt, pf, pc, 2 ^ nat depth)"
    using b ver by (simp add: andThen_def push_bit_of_1)
  then show ?thesis using ver by blast
qed




text \<open>
  C5 says that in both modes the leaf of a covered index is the chunk padded with leading
  zero bytes to the byte width of the modulus. \<^verbatim>\<open>GenerateMerkleTree\<close> does that.
  \<^verbatim>\<open>GenerateMerkleTreeWithHardBound\<close> starts from \<^verbatim>\<open>make([]byte, chunkSize)\<close>, appends
  the chunk and pads behind it, so that the zero bytes it writes in front of the chunk are
  always none: for the payload \<open>test\<close>, the BN254 scalar field (32 bytes), chunk size 16 and
  depth 6, leaf 0 and the proof chunk are 16 zero bytes, \<open>test\<close>, 12 zero bytes, and not 28
  zero bytes followed by \<open>test\<close>.
\<close>

theorem hard_bound_leaf_not_left_padded:
  "modulusSizeBytes (ScalarField refExtern BN254) = 32
   \<and> shiftLeft1 DEPTH = Inr 64
   \<and> andThen (hardBoundLoop (bytesOf ''test'') 32 CHUNK_SIZE 64 0 0 ([], []))
         (\<lambda>(proofChunk, buf). Inr (leaf 32 buf 0, proofChunk))
       = Inr (replicate 16 0 @ bytesOf ''test'' @ replicate 12 0,
              replicate 16 0 @ bytesOf ''test'' @ replicate 12 0)
   \<and> leftPad 32 (bytesOf ''test'') = replicate 28 0 @ bytesOf ''test''
   \<and> replicate 16 0 @ bytesOf ''test'' @ replicate 12 0 \<noteq> leftPad 32 (bytesOf ''test'')
   \<and> andThen (exactLoop (bytesOf ''test'') 32 CHUNK_SIZE 1 0 0 ([], []))
         (\<lambda>(proofChunk, buf). Inr (leaf 32 buf 0, proofChunk))
       = Inr (leftPad 32 (bytesOf ''test''), leftPad 32 (bytesOf ''test''))"
proof -
  have "shiftLeft1 DEPTH = Inr 64"
    by (simp add: shiftLeft1_def DEPTH_def int64_def)
  moreover have "andThen (hardBoundLoop (bytesOf ''test'') 32 CHUNK_SIZE 64 0 0 ([], []))
         (\<lambda>(proofChunk, buf). Inr (leaf 32 buf 0, proofChunk))
       = Inr (replicate 16 0 @ bytesOf ''test'' @ replicate 12 0,
              replicate 16 0 @ bytesOf ''test'' @ replicate 12 0)"
    by code_simp
  moreover have "leftPad 32 (bytesOf ''test'') = replicate 28 0 @ bytesOf ''test''"
    by code_simp
  moreover have "replicate 16 0 @ bytesOf ''test'' @ replicate 12 0 \<noteq> leftPad 32 (bytesOf ''test'')"
    by code_simp
  moreover have "andThen (exactLoop (bytesOf ''test'') 32 CHUNK_SIZE 1 0 0 ([], []))
         (\<lambda>(proofChunk, buf). Inr (leaf 32 buf 0, proofChunk))
       = Inr (leftPad 32 (bytesOf ''test''), leftPad 32 (bytesOf ''test''))"
    by code_simp
  ultimately show ?thesis using modulusSizeBytes_BN254 by simp
qed

section \<open>Properties of the signature commitment\<close>

lemma splitHash32_Inr:
  "splitHash32 E data = Inr (high, low)
   \<Longrightarrow> high = take 16 (Sum256 E (bytesOf data)) \<and> low = drop 16 (Sum256 E (bytesOf data))
       \<and> length (Sum256 E (bytesOf data)) = 32"
  by (auto simp: splitHash32_def Let_def split: if_splits)

lemma GetSignatureCommitment_fields:
  assumes "GetSignatureCommitment E t hasher computeRoot = Inr c"
  shows "splitHash32 E (BlockchainId t) = Inr (BlockchainIdHigh c, BlockchainIdLow c)
       \<and> splitHash32 E (From t) = Inr (FromHigh c, FromLow c)
       \<and> splitHash32 E (To t) = Inr (ToHigh c, ToLow c)
       \<and> splitHash32 E (Suggestor t) = Inr (SuggestorHigh c, SuggestorLow c)
       \<and> Timestamp c = word_of_int (SenderTimestamp t)
       \<and> (\<exists>proofElements proofChunk numLeaves.
             GenerateMerkleTreeWithHardBound E (bytesOf (Payload t))
               (if KeyType t = KeyTypeBLS12377 then BLS_CURVE E else ECDSA_CURVE E)
               CHUNK_SIZE DEPTH hasher 0
             = Inr (PayloadRoot c, proofElements, proofChunk, numLeaves))"
  using assms unfolding GetSignatureCommitment_def andThen_def Let_def
  by (auto split: sum.splits prod.splits)

lemma HashSignatureCommitment_writes:
  "HashSignatureCommitment E hasher s c =
     (hashSum E hasher
        [BlockchainIdHigh c, BlockchainIdLow c, FromHigh c, FromLow c, ToHigh c, ToLow c,
         PayloadRoot c, PutUint64 (Timestamp c), SuggestorHigh c, SuggestorLow c],
      [BlockchainIdHigh c, BlockchainIdLow c, FromHigh c, FromLow c, ToHigh c, ToLow c,
       PayloadRoot c, PutUint64 (Timestamp c), SuggestorHigh c, SuggestorLow c])"
  by (simp add: HashSignatureCommitment_def Reset_def Write_def Let_def)

lemma modulusSizeBytes_refExtern: "2 * 16 \<le> int (modulusSizeBytes (ScalarField refExtern cv))"
  by (cases cv) (simp_all add: modulusSizeBytes_BN254 modulusSizeBytes_BW6_761)

lemma refExtern_hard_bound:
  assumes "length payload \<le> 1024"
  shows "\<exists>rt pf chunk.
           GenerateMerkleTreeWithHardBound refExtern payload (ScalarField refExtern cv)
             CHUNK_SIZE DEPTH h 0 = Inr (rt, pf, chunk, 64)"
proof -
  have pos: "0 < modulusSizeBytes (ScalarField refExtern cv)"
    using modulusSizeBytes_refExtern [of cv] by linarith
  have "\<exists>rt pf chunk.
            GenerateMerkleTreeWithHardBound refExtern payload (ScalarField refExtern cv) 16 6 h 0
              = Inr (rt, pf, chunk, 2 ^ nat 6)
            \<and> VerifyProof refExtern h rt pf 0 (2 ^ nat 6)"
  proof (rule hard_bound_succeeds)
    show "2 * 16 \<le> int (modulusSizeBytes (ScalarField refExtern cv))"
      by (rule modulusSizeBytes_refExtern)
    show "int (length payload) \<le> 16 * 2 ^ nat 6" using assms by simp
    fix buf :: bytes
    assume "length buf = 2 ^ nat 6 * modulusSizeBytes (ScalarField refExtern cv)"
    then show "\<exists>rt pf. BuildReaderProof refExtern h buf (modulusSizeBytes (ScalarField refExtern cv)) 0
                 = Inr (rt, pf, 2 ^ nat 6) \<and> VerifyProof refExtern h rt pf 0 (2 ^ nat 6)"
      using pos by (simp add: refExtern_def)
  qed simp_all
  then show ?thesis by (auto simp: CHUNK_SIZE_def DEPTH_def)
qed

lemma refExtern_GetSignatureCommitment:
  assumes "length (Payload t) \<le> 1024"
  shows "\<exists>c. GetSignatureCommitment refExtern t h computeRoot = Inr c"
proof -
  have sp: "splitHash32 refExtern x
              = Inr (take 16 (Sum256 refExtern (bytesOf x)), drop 16 (Sum256 refExtern (bytesOf x)))"
    for x by (simp add: splitHash32_def Let_def) (simp add: refExtern_def)
  have "length (bytesOf (Payload t)) \<le> 1024" using assms by (simp add: bytesOf_def)
  from refExtern_hard_bound [OF this] obtain rt pf chunk where
    "GenerateMerkleTreeWithHardBound refExtern (bytesOf (Payload t))
       (ScalarField refExtern (if KeyType t = KeyTypeBLS12377 then BW6_761 else BN254))
       CHUNK_SIZE DEPTH h 0 = Inr (rt, pf, chunk, 64)"
    by blast
  then show ?thesis
    by (auto simp: GetSignatureCommitment_def sp andThen_def Let_def BLS_CURVE_def ECDSA_CURVE_def)
qed

text \<open>
  C2. \<^verbatim>\<open>HashSignatureCommitment\<close> resets the hasher and writes to it, in this order, the
  high and low halves of the blockchain id, of the sender and of the receiver, the payload root,
  the timestamp as 8 bytes big endian, and the high and low halves of the suggestor; its
  result is the digest of exactly these writes. For a commitment that
  \<^verbatim>\<open>GetSignatureCommitment\<close> returned, the high half of an identifier is the first 16 bytes
  and the low half the last 16 bytes of its SHA-256 digest of 32 bytes.
\<close>

theorem HashSignatureCommitment_preimage:
  assumes "GetSignatureCommitment E t hasher computeRoot = Inr c"
  shows "HashSignatureCommitment E hasher s c =
           (hashSum E hasher
              [take 16 (Sum256 E (bytesOf (BlockchainId t))), drop 16 (Sum256 E (bytesOf (BlockchainId t))),
               take 16 (Sum256 E (bytesOf (From t))), drop 16 (Sum256 E (bytesOf (From t))),
               take 16 (Sum256 E (bytesOf (To t))), drop 16 (Sum256 E (bytesOf (To t))),
               PayloadRoot c,
               PutUint64 (word_of_int (SenderTimestamp t)),
               take 16 (Sum256 E (bytesOf (Suggestor t))), drop 16 (Sum256 E (bytesOf (Suggestor t)))],
            [BlockchainIdHigh c, BlockchainIdLow c, FromHigh c, FromLow c, ToHigh c, ToLow c,
             PayloadRoot c, PutUint64 (Timestamp c), SuggestorHigh c, SuggestorLow c])
         \<and> length (PutUint64 (word_of_int (SenderTimestamp t))) = 8
         \<and> length (Sum256 E (bytesOf (BlockchainId t))) = 32
         \<and> length (Sum256 E (bytesOf (From t))) = 32
         \<and> length (Sum256 E (bytesOf (To t))) = 32
         \<and> length (Sum256 E (bytesOf (Suggestor t))) = 32"
proof -
  note f = GetSignatureCommitment_fields [OF assms]
  from f have b: "BlockchainIdHigh c = take 16 (Sum256 E (bytesOf (BlockchainId t)))"
      "BlockchainIdLow c = drop 16 (Sum256 E (bytesOf (BlockchainId t)))"
      "length (Sum256 E (bytesOf (BlockchainId t))) = 32"
    using splitHash32_Inr [of E "BlockchainId t"] by auto
  from f have fr: "FromHigh c = take 16 (Sum256 E (bytesOf (From t)))"
      "FromLow c = drop 16 (Sum256 E (bytesOf (From t)))"
      "length (Sum256 E (bytesOf (From t))) = 32"
    using splitHash32_Inr [of E "From t"] by auto
  from f have to: "ToHigh c = take 16 (Sum256 E (bytesOf (To t)))"
      "ToLow c = drop 16 (Sum256 E (bytesOf (To t)))"
      "length (Sum256 E (bytesOf (To t))) = 32"
    using splitHash32_Inr [of E "To t"] by auto
  from f have su: "SuggestorHigh c = take 16 (Sum256 E (bytesOf (Suggestor t)))"
      "SuggestorLow c = drop 16 (Sum256 E (bytesOf (Suggestor t)))"
      "length (Sum256 E (bytesOf (Suggestor t))) = 32"
    using splitHash32_Inr [of E "Suggestor t"] by auto
  from f have ts: "Timestamp c = word_of_int (SenderTimestamp t)" by simp
  show ?thesis
    unfolding HashSignatureCommitment_writes
    using b fr to su ts by (simp add: PutUint64_def)
qed

theorem HashSignatureCommitment_preimage_witness:
  "\<exists>c. GetSignatureCommitment refExtern (refInput ''DATA'') MiMC_BN254 True = Inr c
      \<and> fst (HashSignatureCommitment refExtern MiMC_BN254 [] c)
          = hashSum refExtern MiMC_BN254
              [take 16 (Sum256 refExtern (bytesOf ''MyBlockchain1'')),
               drop 16 (Sum256 refExtern (bytesOf ''MyBlockchain1'')),
               take 16 (Sum256 refExtern (bytesOf ''alice'')),
               drop 16 (Sum256 refExtern (bytesOf ''alice'')),
               take 16 (Sum256 refExtern (bytesOf ''bob'')),
               drop 16 (Sum256 refExtern (bytesOf ''bob'')),
               PayloadRoot c,
               [0, 0, 0, 0, 0, 0, 0, 0],
               take 16 (Sum256 refExtern (bytesOf [])),
               drop 16 (Sum256 refExtern (bytesOf []))]"
proof -
  obtain c where c: "GetSignatureCommitment refExtern (refInput ''DATA'') MiMC_BN254 True = Inr c"
    using refExtern_GetSignatureCommitment [of "refInput ''DATA''"] by (auto simp: refInput_def)
  show ?thesis
    using HashSignatureCommitment_preimage [OF c, of "[]"] c
    by (auto simp: refInput_def PutUint64_def)
qed


lemma andThen_Inr: "andThen m Inr = m"
  by (simp add: andThen_def split: sum.splits)



text \<open>
  C6. For the transaction kinds \<^verbatim>\<open>DEPLOY_SMART_CONTRACT\<close>, \<^verbatim>\<open>UPGRADE_SMART_CONTRACT\<close>,
  \<^verbatim>\<open>TX_CREATE_WALLET\<close> and \<^verbatim>\<open>TX_ALTER_WALLET\<close> the bytes handed to \<^verbatim>\<open>SignData\<close> are
  the root that \<^verbatim>\<open>GenerateMerkleTree\<close> (the exact mode) computes from the payload, the
  field and the hasher of the key type: no identifier and no time enters. For every other
  kind they are the digest, by the hasher of the key type, of the ten segments of the
  commitment that \<^verbatim>\<open>GetSignatureCommitment\<close> assembles for the input with the suggestor,
  the time, the sender and the key type of the session.
\<close>

theorem GenerateTransaction_signed_bytes:
  "(PayloadType input = typeString DEPLOY_SMART_CONTRACT
      \<or> PayloadType input = typeString UPGRADE_SMART_CONTRACT
      \<or> PayloadType input = typeString TX_CREATE_WALLET
      \<or> PayloadType input = typeString TX_ALTER_WALLET
    \<longrightarrow> GenerateTransaction_commitment E session now s input
          = andThen (GenerateMerkleTree E (bytesOf (Payload input))
                       (if keyType (wallet session) = KeyTypeBLS12377 then BLS_CURVE E
                        else ECDSA_CURVE E)
                       CHUNK_SIZE (GetHasherByType (keyType (wallet session))) 0)
              (\<lambda>(payloadRoot, proofElements, proofChunk, numLeaves). Inr payloadRoot))
   \<and> (\<not> (PayloadType input = typeString DEPLOY_SMART_CONTRACT
          \<or> PayloadType input = typeString UPGRADE_SMART_CONTRACT
          \<or> PayloadType input = typeString TX_CREATE_WALLET
          \<or> PayloadType input = typeString TX_ALTER_WALLET)
    \<longrightarrow> GenerateTransaction_commitment E session now s input
          = andThen (GetSignatureCommitment E
                       (input\<lparr>Suggestor := suggestor session, SenderTimestamp := now,
                              From := Address (wallet session),
                              KeyType := keyType (wallet session)\<rparr>)
                       (GetHasherByType (keyType (wallet session))) True)
              (\<lambda>c. Inr (hashSum E (GetHasherByType (keyType (wallet session)))
                           [BlockchainIdHigh c, BlockchainIdLow c, FromHigh c, FromLow c,
                            ToHigh c, ToLow c, PayloadRoot c, PutUint64 (Timestamp c),
                            SuggestorHigh c, SuggestorLow c])))"
  by (auto simp: GenerateTransaction_commitment_def GetUnboundCommitment_def Let_def
      HashSignatureCommitment_writes andThen_Inr)

lemma refExtern_unbound:
  "GenerateMerkleTree refExtern (bytesOf ''test'') (ScalarField refExtern BN254) CHUNK_SIZE MiMC_BN254 0
     = Inr (replicate 28 0 @ bytesOf ''test'', [], replicate 28 0 @ bytesOf ''test'', 1)"
  by (simp add: GenerateMerkleTree_def modulusSizeBytes_BN254 CHUNK_SIZE_def bytesOf_def quo_def
      int64_def exactLoop.simps exactChunk_def sliceBytes_def makeBytes_def andThen_def Let_def)
     (simp add: refExtern_def)

theorem GenerateTransaction_signed_bytes_witness:
  "GenerateTransaction_commitment refExtern (refSession KeyTypeSecp256k1) 1700000000 []
      (refInput ''DEPLOY_SMART_CONTRACT'') = Inr (replicate 28 0 @ bytesOf ''test'')
   \<and> (\<exists>c. GetSignatureCommitment refExtern
             (refInput ''DATA''\<lparr>Suggestor := ''node1'', SenderTimestamp := 1700000000,
                                From := ''alice'', KeyType := KeyTypeSecp256k1\<rparr>) MiMC_BN254 True = Inr c
         \<and> GenerateTransaction_commitment refExtern (refSession KeyTypeSecp256k1) 1700000000 []
              (refInput ''DATA'')
            = Inr (hashSum refExtern MiMC_BN254
                     [BlockchainIdHigh c, BlockchainIdLow c, FromHigh c, FromLow c,
                      ToHigh c, ToLow c, PayloadRoot c, PutUint64 (Timestamp c),
                      SuggestorHigh c, SuggestorLow c]))"
proof -
  let ?t = "refInput ''DATA''\<lparr>Suggestor := ''node1'', SenderTimestamp := 1700000000,
                                From := ''alice'', KeyType := KeyTypeSecp256k1\<rparr>"
  obtain c where c: "GetSignatureCommitment refExtern ?t MiMC_BN254 True = Inr c"
    using refExtern_GetSignatureCommitment [of ?t] by (auto simp: refInput_def)
  have bound: "GenerateTransaction_commitment refExtern (refSession KeyTypeSecp256k1) 1700000000 []
              (refInput ''DATA'')
            = Inr (hashSum refExtern MiMC_BN254
                     [BlockchainIdHigh c, BlockchainIdLow c, FromHigh c, FromLow c,
                      ToHigh c, ToLow c, PayloadRoot c, PutUint64 (Timestamp c),
                      SuggestorHigh c, SuggestorLow c])"
    using GenerateTransaction_signed_bytes
            [of "refInput ''DATA''" refExtern "refSession KeyTypeSecp256k1" 1700000000 "[]"] c
    by (simp add: refInput_def refSession_def GetHasherByType_def andThen_def)
  have unbound: "GenerateTransaction_commitment refExtern (refSession KeyTypeSecp256k1) 1700000000 []
      (refInput ''DEPLOY_SMART_CONTRACT'') = Inr (replicate 28 0 @ bytesOf ''test'')"
    using GenerateTransaction_signed_bytes
            [of "refInput ''DEPLOY_SMART_CONTRACT''" refExtern "refSession KeyTypeSecp256k1"
                1700000000 "[]"] refExtern_unbound
    by (simp add: refInput_def refSession_def GetHasherByType_def andThen_def KeyType_defs
        ECDSA_CURVE_def)
  show ?thesis using bound unbound c by blast
qed

end
